theory Spec2Isabelle
  imports Complex_Main "HOL-Library.Sublist"
begin

section \<open>Batch scan service (Backend/app/services/scan\_service.py)\<close>

text \<open>
  The development follows the Python module: the filter engine
  (\<open>filter_buy_points\<close>), the universe resolver (\<open>get_stock_list\<close>), task creation
  (\<open>start_scan\<close>), the task record (\<open>ScanTask\<close>) and the scan scheduler
  (\<open>_run_scan\<close>, \<open>scan_single_stock\<close>, \<open>cancel_scan\<close>).

  Python exceptions are values of \<open>py_error\<close>; a function that can raise returns
  \<open>py_error + 'a\<close>.
\<close>

datatype py_error = ValueError | OverflowError | DbError

subsection \<open>Data model (app/models/schemas.py)\<close>

text \<open>
  \<open>BSPoint\<close>: the fields \<open>type\<close>, \<open>time\<close>, \<open>value\<close> of the source carry the
  prefix \<open>pt_\<close> here. The float \<open>value\<close> is carried through untouched.
\<close>

record BSPoint =
  pt_type :: string
  pt_time :: string
  pt_value :: real
  klu_idx :: int
  is_buy :: bool

record ScanResultItem =
  code :: string
  name :: "string option"
  bsp_type :: string
  bsp_time :: string
  bsp_value :: real
  item_is_buy :: bool
  kline_type :: string

record ScanRequest =
  stock_pool :: string
  boards :: "string list option"
  stock_codes :: "string list option"
  req_kline_type :: string
  bsp_types :: "string list"
  time_window_days :: int
  limit :: int

subsection \<open>Filter engine\<close>

text \<open>
  \<open>re.findall(r"'([^']+)'", s)\<close>: the non-overlapping matches, left to right, of a
  quote, one or more characters other than a quote, and a quote; the result lists the
  text between the quotes. The scan is a two-state automaton: \<open>None\<close> outside a
  candidate match, \<open>Some acc\<close> after an opening quote with the characters read since
  (reversed). A quote that directly follows an opening quote cannot close a match (the
  group needs one character), and the search resumes with it as the opening quote. An
  opening quote with no closing quote yields no match.
\<close>

fun findall_quoted_from :: "string option \<Rightarrow> string \<Rightarrow> string list" where
  "findall_quoted_from st [] = []"
| "findall_quoted_from None (c # cs) =
     (if c = CHR 0x27 then findall_quoted_from (Some []) cs
      else findall_quoted_from None cs)"
| "findall_quoted_from (Some acc) (c # cs) =
     (if c = CHR 0x27
      then (if acc = [] then findall_quoted_from (Some []) cs
            else rev acc # findall_quoted_from None cs)
      else findall_quoted_from (Some (c # acc)) cs)"

definition findall_quoted :: "string \<Rightarrow> string list" where
  "findall_quoted s = findall_quoted_from None s"

text \<open>Lines 802-810: the extracted tag values, or the raw string when nothing is quoted.\<close>

definition bsp_type_values :: "string \<Rightarrow> string list" where
  "bsp_type_values raw_type =
     (let matches = findall_quoted raw_type
      in if matches \<noteq> [] then matches else [raw_type])"

text \<open>Line 813: \<open>any(t in bsp_types for t in bsp_type_values)\<close>.\<close>

definition type_matched :: "string list \<Rightarrow> string list \<Rightarrow> bool" where
  "type_matched types vals = list_ex (\<lambda>t. t \<in> set types) vals"

text \<open>
  Lines 821-830: the assignment to \<open>bsp.type\<close>. With several values the loop over the
  requested types assigns the first requested type that is among the values and
  breaks; when the loop finds none the field is left as it was. With one value the field
  becomes that value (\<open>bsp_type_values[0]\<close>; the list is never empty).
\<close>

definition rewrite_type :: "string list \<Rightarrow> string list \<Rightarrow> BSPoint \<Rightarrow> BSPoint" where
  "rewrite_type types vals bsp =
     (if length vals > 1
      then (case find (\<lambda>t. t \<in> set vals) types of
              Some t \<Rightarrow> bsp\<lparr>pt_type := t\<rparr>
            | None \<Rightarrow> bsp)
      else (case vals of v # _ \<Rightarrow> bsp\<lparr>pt_type := v\<rparr> | [] \<Rightarrow> bsp))"

text \<open>
  Naive datetimes are microseconds since 0001-01-01 00:00:00; the largest datetime is
  9999-12-31 23:59:59.999999, the last microsecond of day 3652059.
  \<open>timedelta(days=d)\<close> raises OverflowError beyond 999999999 days, and subtracting a
  timedelta raises OverflowError when the result leaves the datetime range.
\<close>

type_synonym datetime = int

definition us_per_day :: int where
  "us_per_day = 86400000000"

definition datetime_end :: int where
  "datetime_end = 3652059 * us_per_day"

definition timedelta_days :: "int \<Rightarrow> py_error + int" where
  "timedelta_days d = (if \<bar>d\<bar> > 999999999 then Inl OverflowError else Inr (d * us_per_day))"

definition datetime_sub :: "datetime \<Rightarrow> int \<Rightarrow> py_error + datetime" where
  "datetime_sub t delta =
     (let r = t - delta
      in if r < 0 \<or> r \<ge> datetime_end then Inl OverflowError else Inr r)"

text \<open>Line 782: \<open>cutoff_time = datetime.now() - timedelta(days=time_window_days)\<close>.\<close>

definition cutoff_time :: "datetime \<Rightarrow> int \<Rightarrow> py_error + datetime" where
  "cutoff_time now days =
     (case timedelta_days days of
        Inl e \<Rightarrow> Inl e
      | Inr delta \<Rightarrow> datetime_sub now delta)"

text \<open>
  The body of the loop of \<open>filter_buy_points\<close> (lines 796-859) for one point: \<open>None\<close>
  when the point is skipped, \<open>Some\<close> of the appended point otherwise. The parameter
  \<open>strptime\<close> stands for \<open>datetime.strptime(s, "%Y/%m/%d %H:%M")\<close>, with \<open>None\<close> for
  its ValueError (the source then continues with the next point).
\<close>

definition filter_point ::
  "(string \<Rightarrow> datetime option) \<Rightarrow> datetime \<Rightarrow> string list \<Rightarrow> BSPoint \<Rightarrow> BSPoint option" where
  "filter_point strptime cutoff types bsp =
     (if \<not> is_buy bsp then None
      else
        let vals = bsp_type_values (pt_type bsp)
        in if \<not> type_matched types vals then None
           else
             let bsp' = rewrite_type types vals bsp
             in (case strptime (pt_time bsp') of
                   None \<Rightarrow> None
                 | Some bsp_time' \<Rightarrow> if bsp_time' \<ge> cutoff then Some bsp' else None))"

text \<open>The loop, with the list \<open>recent_buy_points\<close> as accumulator.\<close>

fun filter_loop ::
  "(string \<Rightarrow> datetime option) \<Rightarrow> datetime \<Rightarrow> string list \<Rightarrow> BSPoint list \<Rightarrow> BSPoint list
     \<Rightarrow> BSPoint list" where
  "filter_loop strptime cutoff types [] recent = recent"
| "filter_loop strptime cutoff types (bsp # rest) recent =
     (case filter_point strptime cutoff types bsp of
        None \<Rightarrow> filter_loop strptime cutoff types rest recent
      | Some bsp' \<Rightarrow> filter_loop strptime cutoff types rest (recent @ [bsp']))"

definition filter_buy_points ::
  "(string \<Rightarrow> datetime option) \<Rightarrow> datetime \<Rightarrow> BSPoint list \<Rightarrow> string list \<Rightarrow> int
     \<Rightarrow> py_error + BSPoint list" where
  "filter_buy_points strptime now bs_points types days =
     (case cutoff_time now days of
        Inl e \<Rightarrow> Inl e
      | Inr cutoff \<Rightarrow> Inr (filter_loop strptime cutoff types bs_points []))"

subsection \<open>Universe resolver\<close>

text \<open>
  The catalog is the table \<open>stocks\<close> of the database: \<open>None\<close> when the connection or
  the query raises, otherwise the codes in the order the query returns them.
\<close>

definition get_all_stocks :: "string list option \<Rightarrow> string list" where
  "get_all_stocks catalog = (case catalog of None \<Rightarrow> [] | Some codes \<Rightarrow> codes)"

definition startswith :: "string \<Rightarrow> string \<Rightarrow> bool" where
  "startswith s p = (take (length p) s = p)"

definition BOARD_PATTERNS :: "string \<Rightarrow> (string \<Rightarrow> bool) option" where
  "BOARD_PATTERNS board =
     (if board = ''sh_main'' then Some (\<lambda>c. startswith c ''sh.60'')
      else if board = ''sz_main'' then Some (\<lambda>c. startswith c ''sz.00'')
      else if board = ''cyb'' then Some (\<lambda>c. startswith c ''sz.30'')
      else if board = ''kcb'' then Some (\<lambda>c. startswith c ''sh.688'')
      else if board = ''bj'' then Some (\<lambda>c. startswith c ''bj.'')
      else if board = ''etf'' then
        Some (\<lambda>c. startswith c ''sh.51'' \<or> startswith c ''sh.56'' \<or> startswith c ''sh.58''
                 \<or> startswith c ''sz.15'' \<or> startswith c ''sz.16'' \<or> startswith c ''sz.18'')
      else None)"

definition board_hit :: "string \<Rightarrow> string \<Rightarrow> bool" where
  "board_hit c board = (case BOARD_PATTERNS board of None \<Rightarrow> False | Some pattern \<Rightarrow> pattern c)"

definition get_stocks_by_boards :: "string list option \<Rightarrow> string list \<Rightarrow> string list" where
  "get_stocks_by_boards catalog bds =
     (let all_stocks = get_all_stocks catalog
      in if bds = [] then all_stocks
         else filter (\<lambda>c. list_ex (board_hit c) bds) all_stocks)"

text \<open>Truth value of an \<open>Optional[List[str]]\<close>: false for \<open>None\<close> and for the empty list.\<close>

definition truthy :: "'a list option \<Rightarrow> bool" where
  "truthy x = (case x of None \<Rightarrow> False | Some xs \<Rightarrow> xs \<noteq> [])"

definition get_stock_list ::
  "string list option \<Rightarrow> string \<Rightarrow> string list option \<Rightarrow> string list option \<Rightarrow> string list" where
  "get_stock_list catalog pool bds codes =
     (if pool = ''custom'' \<and> truthy codes then (case codes of Some xs \<Rightarrow> xs | None \<Rightarrow> [])
      else if pool = ''boards'' \<and> truthy bds
           then get_stocks_by_boards catalog (case bds of Some xs \<Rightarrow> xs | None \<Rightarrow> [])
      else get_all_stocks catalog)"

subsection \<open>Task record (class ScanTask)\<close>

text \<open>
  \<open>lock\<close> is true while some thread is inside \<open>with task.lock\<close>. Times are the
  values of \<open>time.time()\<close>. The field \<open>progress_queue\<close>, which nothing assigns, and
  the derived percentage \<open>progress\<close> are left out.
\<close>

record ScanTask =
  task_id :: string
  status :: string
  total_count :: nat
  processed_count :: nat
  found_count :: nat
  current_stock :: "string option"
  results :: "ScanResultItem list"
  error_message :: "string option"
  start_time :: real
  cancelled :: bool
  lock :: bool

definition ScanTask_init :: "string \<Rightarrow> nat \<Rightarrow> real \<Rightarrow> ScanTask" where
  "ScanTask_init tid total_stocks now =
     \<lparr>task_id = tid, status = ''running'', total_count = total_stocks, processed_count = 0,
      found_count = 0, current_stock = None, results = [], error_message = None,
      start_time = now, cancelled = False, lock = False\<rparr>"

definition elapsed_time :: "real \<Rightarrow> ScanTask \<Rightarrow> real" where
  "elapsed_time now t = now - start_time t"

record ScanResultResponse =
  resp_task_id :: string
  resp_status :: string
  resp_results :: "ScanResultItem list"
  total_scanned :: nat
  total_found :: nat
  resp_elapsed_time :: real

text \<open>\<open>to_result\<close> reads the fields without taking the lock; \<open>now\<close> is the time of the read.\<close>

definition to_result :: "real \<Rightarrow> ScanTask \<Rightarrow> ScanResultResponse" where
  "to_result now t =
     \<lparr>resp_task_id = task_id t, resp_status = status t, resp_results = results t,
      total_scanned = processed_count t, total_found = found_count t,
      resp_elapsed_time = elapsed_time now t\<rparr>"

definition terminal :: "string \<Rightarrow> bool" where
  "terminal st = (st = ''completed'' \<or> st = ''cancelled'' \<or> st = ''error'')"

subsection \<open>Service state, task creation and cancellation request\<close>

text \<open>
  The service with the part of the world \<open>start_scan\<close> touches: the catalog, the rows
  of table \<open>scan_tasks\<close> written by \<open>create_task_in_db\<close> (task id and total count;
  \<open>db_writable\<close> is false when the insert raises, and the exception is raised again),
  the in-process dictionary \<open>tasks\<close>, and the scan threads started (task id and the
  stocks handed to \<open>_run_scan\<close>).
\<close>

record service =
  catalog :: "string list option"
  db_writable :: bool
  db_scan_tasks :: "(string \<times> nat) list"
  tasks :: "string \<rightharpoonup> ScanTask"
  threads :: "(string \<times> string list) list"

definition create_task_in_db :: "service \<Rightarrow> string \<Rightarrow> nat \<Rightarrow> py_error + service" where
  "create_task_in_db svc tid n =
     (if db_writable svc then Inr (svc\<lparr>db_scan_tasks := db_scan_tasks svc @ [(tid, n)]\<rparr>)
      else Inl DbError)"

text \<open>
  \<open>start_scan\<close>: \<open>tid\<close> is the value of \<open>uuid4()\<close>, \<open>now\<close> the time the task object is
  built. The result pairs what the call returns or raises with the state it leaves.
\<close>

definition start_scan ::
  "service \<Rightarrow> ScanRequest \<Rightarrow> string \<Rightarrow> real \<Rightarrow> (py_error + string) \<times> service" where
  "start_scan svc request tid now =
     (let stocks = get_stock_list (catalog svc) (stock_pool request) (boards request)
                     (stock_codes request)
      in if stocks = [] then (Inl ValueError, svc)
         else (case create_task_in_db svc tid (length stocks) of
                 Inl e \<Rightarrow> (Inl e, svc)
               | Inr svc1 \<Rightarrow>
                   let t = ScanTask_init tid (length stocks) now;
                       svc2 = svc1\<lparr>tasks := (tasks svc1)(tid \<mapsto> t)\<rparr>;
                       svc3 = svc2\<lparr>threads := threads svc2 @ [(tid, stocks)]\<rparr>
                   in (Inr tid, svc3)))"


subsection \<open>Scan scheduler: the threads working on one task\<close>

definition MAX_WORKERS :: nat where
  "MAX_WORKERS = 15"

definition SINGLE_STOCK_TIMEOUT :: nat where
  "SINGLE_STOCK_TIMEOUT = 30"

text \<open>
  One unit of work is one call of \<open>scan_single_stock\<close> submitted to the executor; its
  future is identified by the position of the code in \<open>stocks\<close>.
  \<^item> \<open>Queued\<close>: submitted or to be submitted, not picked up by a worker.
  \<^item> \<open>Checked t\<close>: picked up at time \<open>t\<close>, the test of \<open>task.cancelled\<close> (line 712) was
    false, the worker is about to take the lock for line 718.
  \<^item> \<open>Computing t\<close>: past line 718, inside the analysis and the filter.
  \<^item> \<open>Done d r\<close>: the call returned \<open>r\<close> after \<open>d\<close> seconds; the future is done.
    The function catches every exception of its body and returns \<open>None\<close>, so a done
    future always holds a value.
\<close>

datatype unit_state =
    Queued
  | Checked nat
  | Computing nat
  | Done nat "ScanResultItem list option"

text \<open>
  The position of the thread running \<open>_run_scan\<close>, named after the line it is about
  to execute.
\<close>

datatype driver_pc =
    DSubmit
  | DWait
  | DCheck nat
  | DResult nat nat
  | DAcquire "ScanResultItem list option"
  | DIncr "ScanResultItem list option"
  | DExtend "ScanResultItem list option"
  | DFound "ScanResultItem list"
  | DRelease
  | DExcAcquire
  | DExcIncr
  | DFinal
  | DStatus
  | DClear
  | DErrAcquire string
  | DErrStatus string
  | DErrMsg string
  | DExit

record sys =
  task :: ScanTask
  stocks :: "string list"
  units :: "unit_state list"
  submitted :: nat
  yielded :: "nat list"
  pc :: driver_pc
  pending_cancel :: nat
  clock :: nat

definition init_sys :: "string \<Rightarrow> string list \<Rightarrow> real \<Rightarrow> sys" where
  "init_sys tid codes now =
     \<lparr>task = ScanTask_init tid (length codes) now, stocks = codes,
      units = replicate (length codes) Queued, submitted = 0, yielded = [], pc = DSubmit,
      pending_cancel = 0, clock = 0\<rparr>"

definition in_flight :: "unit_state \<Rightarrow> bool" where
  "in_flight u = (case u of Checked _ \<Rightarrow> True | Computing _ \<Rightarrow> True | _ \<Rightarrow> False)"

definition is_done :: "unit_state \<Rightarrow> bool" where
  "is_done u = (case u of Done _ _ \<Rightarrow> True | _ \<Rightarrow> False)"

text \<open>Truth value of the result of a unit (\<open>if result:\<close>, line 928).\<close>

definition result_items :: "ScanResultItem list option \<Rightarrow> ScanResultItem list" where
  "result_items r = (case r of None \<Rightarrow> [] | Some xs \<Rightarrow> xs)"

text \<open>
  One statement of \<open>_run_scan\<close>; \<open>None\<close> when the thread cannot move (it waits for the
  lock or for a future, or it has ended).
  \<^item> \<open>DCheck i\<close> (line 920): future \<open>i\<close> came out of \<open>as_completed\<close>; a set cancel flag
    breaks the loop.
  \<^item> \<open>DResult i t\<close> (line 925): \<open>future.result(timeout)\<close>, entered at time \<open>t\<close>: the
    value of a done future at once; otherwise the call waits, and raises TimeoutError
    once \<open>SINGLE_STOCK_TIMEOUT\<close> seconds have passed (handler at lines 940-943).
  \<^item> \<open>DAcquire\<close> to \<open>DRelease\<close>: lines 926-930, then lines 933-938, which do not write
    to the task. \<open>DExcAcquire\<close>, \<open>DExcIncr\<close>: lines 942-943.
  \<^item> \<open>DFinal\<close> to \<open>DClear\<close>: lines 946-951; \<open>DErrAcquire\<close> to \<open>DErrMsg\<close>: lines 971-973.
  \<^item> \<open>DExit\<close>: the rest of the function (lines 953-967 or 974-975) logs and writes to the
    database; \<open>save_results_to_db\<close>, \<open>complete_task_in_db\<close> and \<open>_push_progress\<close>
    catch their own exceptions, so the handler of line 969 is not entered from there, and
    nothing writes to the task any more.
\<close>

definition drive :: "sys \<Rightarrow> sys option" where
  "drive s =
     (let t = task s in
      case pc s of
        DSubmit \<Rightarrow> None
      | DWait \<Rightarrow> None
      | DCheck i \<Rightarrow> Some (if cancelled t then s\<lparr>pc := DFinal\<rparr> else s\<lparr>pc := DResult i (clock s)\<rparr>)
      | DResult i t0 \<Rightarrow>
          (case units s ! i of
             Done d r \<Rightarrow> Some (s\<lparr>pc := DAcquire r\<rparr>)
           | _ \<Rightarrow> if clock s \<ge> t0 + SINGLE_STOCK_TIMEOUT then Some (s\<lparr>pc := DExcAcquire\<rparr>)
                  else None)
      | DAcquire r \<Rightarrow> if lock t then None else Some (s\<lparr>task := t\<lparr>lock := True\<rparr>, pc := DIncr r\<rparr>)
      | DIncr r \<Rightarrow>
          Some (s\<lparr>task := t\<lparr>processed_count := processed_count t + 1\<rparr>, pc := DExtend r\<rparr>)
      | DExtend r \<Rightarrow>
          Some (if result_items r \<noteq> []
                then s\<lparr>task := t\<lparr>results := results t @ result_items r\<rparr>,
                       pc := DFound (result_items r)\<rparr>
                else s\<lparr>pc := DRelease\<rparr>)
      | DFound xs \<Rightarrow>
          Some (s\<lparr>task := t\<lparr>found_count := found_count t + length xs\<rparr>, pc := DRelease\<rparr>)
      | DRelease \<Rightarrow> Some (s\<lparr>task := t\<lparr>lock := False\<rparr>, pc := DWait\<rparr>)
      | DExcAcquire \<Rightarrow>
          if lock t then None else Some (s\<lparr>task := t\<lparr>lock := True\<rparr>, pc := DExcIncr\<rparr>)
      | DExcIncr \<Rightarrow>
          Some (s\<lparr>task := t\<lparr>processed_count := processed_count t + 1\<rparr>, pc := DRelease\<rparr>)
      | DFinal \<Rightarrow> if lock t then None else Some (s\<lparr>task := t\<lparr>lock := True\<rparr>, pc := DStatus\<rparr>)
      | DStatus \<Rightarrow>
          Some (s\<lparr>task := t\<lparr>status := (if cancelled t then ''cancelled'' else ''completed'')\<rparr>,
                  pc := DClear\<rparr>)
      | DClear \<Rightarrow> Some (s\<lparr>task := t\<lparr>current_stock := None, lock := False\<rparr>, pc := DExit\<rparr>)
      | DErrAcquire m \<Rightarrow>
          if lock t then None else Some (s\<lparr>task := t\<lparr>lock := True\<rparr>, pc := DErrStatus m\<rparr>)
      | DErrStatus m \<Rightarrow> Some (s\<lparr>task := t\<lparr>status := ''error''\<rparr>, pc := DErrMsg m\<rparr>)
      | DErrMsg m \<Rightarrow>
          Some (s\<lparr>task := t\<lparr>error_message := Some m, lock := False\<rparr>, pc := DExit\<rparr>)
      | DExit \<Rightarrow> None)"

text \<open>
  What can happen to a task, one event at a time.
  \<^item> \<open>Submit\<close>: the dictionary of futures is built (lines 914-917).
    \<open>SubmitFail k m\<close>: \<open>executor.submit\<close> raises after \<open>k\<close> futures; the handler of
    line 969 runs with message \<open>m\<close>.
  \<^item> \<open>Start i\<close>: a worker picks up unit \<open>i\<close> (the executor starts units in submission
    order and runs at most \<open>MAX_WORKERS\<close> at a time) and tests the cancel flag: when
    set, the call returns \<open>None\<close> at once.
  \<^item> \<open>Mark i\<close>: lines 717-718, under the lock.
  \<^item> \<open>Finish i r\<close>: the call returns \<open>r\<close>.
  \<^item> \<open>Yield i\<close>: \<open>as_completed\<close> hands the done future \<open>i\<close> to the loop, each future
    once. \<open>LoopEnd\<close>: every future has been handed over.
  \<^item> \<open>Drive\<close>: the scan thread executes its next statement.
  \<^item> \<open>CancelCheck\<close>: a caller of \<open>cancel_scan\<close> tests \<open>task.status == "running"\<close>
    (line 1012); \<open>CancelWrite\<close>: a caller whose test succeeded takes the lock and sets
    the flag (lines 1013-1014).
  \<^item> \<open>Tick\<close>: one second passes.
\<close>

datatype event =
    Submit
  | SubmitFail nat string
  | Start nat
  | Mark nat
  | Finish nat "ScanResultItem list option"
  | Yield nat
  | LoopEnd
  | Drive
  | CancelCheck
  | CancelWrite
  | Tick

definition step :: "event \<Rightarrow> sys \<Rightarrow> sys option" where
  "step e s =
     (let t = task s in
      case e of
        Submit \<Rightarrow>
          if pc s = DSubmit then Some (s\<lparr>submitted := length (units s), pc := DWait\<rparr>) else None
      | SubmitFail k m \<Rightarrow>
          if pc s = DSubmit \<and> k < length (units s)
          then Some (s\<lparr>submitted := k, pc := DErrAcquire m\<rparr>) else None
      | Start i \<Rightarrow>
          if i < submitted s \<and> i < length (units s) \<and> units s ! i = Queued
             \<and> Queued \<notin> set (take i (units s))
             \<and> length (filter in_flight (units s)) < MAX_WORKERS
          then Some (s\<lparr>units := (units s)[i := (if cancelled t then Done 0 None
                                                 else Checked (clock s))]\<rparr>)
          else None
      | Mark i \<Rightarrow>
          (if i < length (units s) \<and> i < length (stocks s) \<and> \<not> lock t
           then (case units s ! i of
                   Checked t0 \<Rightarrow>
                     Some (s\<lparr>task := t\<lparr>current_stock := Some (stocks s ! i)\<rparr>,
                             units := (units s)[i := Computing t0]\<rparr>)
                 | _ \<Rightarrow> None)
           else None)
      | Finish i r \<Rightarrow>
          (if i < length (units s)
           then (case units s ! i of
                   Computing t0 \<Rightarrow> Some (s\<lparr>units := (units s)[i := Done (clock s - t0) r]\<rparr>)
                 | _ \<Rightarrow> None)
           else None)
      | Yield i \<Rightarrow>
          if pc s = DWait \<and> i < length (units s) \<and> is_done (units s ! i) \<and> i \<notin> set (yielded s)
          then Some (s\<lparr>yielded := i # yielded s, pc := DCheck i\<rparr>) else None
      | LoopEnd \<Rightarrow>
          if pc s = DWait \<and> length (yielded s) = length (units s)
          then Some (s\<lparr>pc := DFinal\<rparr>) else None
      | Drive \<Rightarrow> drive s
      | CancelCheck \<Rightarrow>
          Some (if status t = ''running'' then s\<lparr>pending_cancel := pending_cancel s + 1\<rparr> else s)
      | CancelWrite \<Rightarrow>
          if pending_cancel s > 0 \<and> \<not> lock t
          then Some (s\<lparr>task := t\<lparr>cancelled := True\<rparr>, pending_cancel := pending_cancel s - 1\<rparr>)
          else None
      | Tick \<Rightarrow> Some (s\<lparr>clock := clock s + 1\<rparr>))"

text \<open>A schedule is a list of events; \<open>None\<close> when one of them cannot happen.\<close>

fun run :: "event list \<Rightarrow> sys \<Rightarrow> sys option" where
  "run [] s = Some s"
| "run (e # es) s = (case step e s of None \<Rightarrow> None | Some s' \<Rightarrow> run es s')"

subsection \<open>Invariant of the scheduler\<close>

text \<open>
  Bookkeeping per position of the scan thread: \<open>pend\<close> is 1 while a future has been
  handed over and its increment of \<open>processed_count\<close> is still to come, \<open>fpend\<close> is the
  size of the batch between \<open>results.extend\<close> and the update of \<open>found_count\<close>,
  \<open>holds_lock\<close> says where the thread is inside a \<open>with task.lock\<close> block, \<open>settled\<close>
  where the status has been assigned, \<open>current\<close> is the future of the running iteration.
\<close>

definition pend :: "driver_pc \<Rightarrow> nat" where
  "pend p = (case p of DCheck _ \<Rightarrow> 1 | DResult _ _ \<Rightarrow> 1 | DAcquire _ \<Rightarrow> 1 | DIncr _ \<Rightarrow> 1
             | DExcAcquire \<Rightarrow> 1 | DExcIncr \<Rightarrow> 1 | _ \<Rightarrow> 0)"

definition fpend :: "driver_pc \<Rightarrow> nat" where
  "fpend p = (case p of DFound xs \<Rightarrow> length xs | _ \<Rightarrow> 0)"

definition holds_lock :: "driver_pc \<Rightarrow> bool" where
  "holds_lock p = (case p of DIncr _ \<Rightarrow> True | DExtend _ \<Rightarrow> True | DFound _ \<Rightarrow> True
                   | DRelease \<Rightarrow> True | DExcIncr \<Rightarrow> True | DStatus \<Rightarrow> True | DClear \<Rightarrow> True
                   | DErrStatus _ \<Rightarrow> True | DErrMsg _ \<Rightarrow> True | _ \<Rightarrow> False)"

definition settled :: "driver_pc \<Rightarrow> bool" where
  "settled p = (case p of DClear \<Rightarrow> True | DErrMsg _ \<Rightarrow> True | DExit \<Rightarrow> True | _ \<Rightarrow> False)"

definition current :: "driver_pc \<Rightarrow> nat option" where
  "current p = (case p of DCheck i \<Rightarrow> Some i | DResult i _ \<Rightarrow> Some i | _ \<Rightarrow> None)"

definition in_handler :: "driver_pc \<Rightarrow> bool" where
  "in_handler p = (case p of DExcAcquire \<Rightarrow> True | DExcIncr \<Rightarrow> True | _ \<Rightarrow> False)"

definition inv :: "sys \<Rightarrow> bool" where
  "inv s =
     (total_count (task s) = length (units s)
      \<and> distinct (yielded s)
      \<and> (\<forall>i \<in> set (yielded s). i < length (units s) \<and> is_done (units s ! i))
      \<and> (\<forall>i. current (pc s) = Some i \<longrightarrow> i \<in> set (yielded s))
      \<and> processed_count (task s) + pend (pc s) \<le> length (yielded s)
      \<and> found_count (task s) + fpend (pc s) = length (results (task s))
      \<and> lock (task s) = holds_lock (pc s)
      \<and> (status (task s) = ''running'') = (\<not> settled (pc s))
      \<and> (settled (pc s) \<longrightarrow> terminal (status (task s)))
      \<and> \<not> in_handler (pc s))"

text \<open>The scan thread at the head of its loop: in \<open>as_completed\<close> or at line 920.\<close>

definition at_loop_head :: "driver_pc \<Rightarrow> bool" where
  "at_loop_head p = (case p of DWait \<Rightarrow> True | DCheck _ \<Rightarrow> True | _ \<Rightarrow> False)"

text \<open>
  After the cancel flag has been seen set at the head of the loop, relative to the
  counters \<open>p\<close>, \<open>f\<close> and the results \<open>rs\<close> of that moment.
\<close>

definition before_status :: "driver_pc \<Rightarrow> bool" where
  "before_status p =
     (case p of DWait \<Rightarrow> True | DCheck _ \<Rightarrow> True | DFinal \<Rightarrow> True | DStatus \<Rightarrow> True
      | _ \<Rightarrow> False)"

definition after_status :: "driver_pc \<Rightarrow> bool" where
  "after_status p = (case p of DClear \<Rightarrow> True | DExit \<Rightarrow> True | _ \<Rightarrow> False)"

definition winding_down :: "nat \<Rightarrow> nat \<Rightarrow> ScanResultItem list \<Rightarrow> sys \<Rightarrow> bool" where
  "winding_down p f rs s =
     (cancelled (task s) \<and> processed_count (task s) = p \<and> found_count (task s) = f
      \<and> results (task s) = rs
      \<and> (before_status (pc s) \<or> after_status (pc s) \<and> status (task s) = ''cancelled''))"

subsection \<open>Example data\<close>

definition example_point :: BSPoint where
  "example_point =
     \<lparr>pt_type = ''[<BSP_TYPE.T2: '2'>, <BSP_TYPE.T3A: '3a'>]'', pt_time = ''2024/05/10 00:00'',
      pt_value = 10, klu_idx = 7, is_buy = True\<rparr>"

text \<open>
  2024-05-10 00:00 is the start of day 739015 of the calendar (day 0 is 0001-01-01),
  microsecond 739015 * 86400000000.
\<close>

definition example_strptime :: "string \<Rightarrow> datetime option" where
  "example_strptime s =
     (if s = ''2024/05/10 00:00'' then Some 63850896000000000
      else if s = ''2024/05/09 23:59'' then Some 63850895940000000
      else None)"

definition example_item :: ScanResultItem where
  "example_item =
     \<lparr>code = ''sh.600000'', name = None, bsp_type = ''1'', bsp_time = ''2024/05/10 00:00'',
      bsp_value = 10, item_is_buy = True, kline_type = ''day''\<rparr>"

section \<open>Properties\<close>

subsection \<open>Filter engine\<close>

lemma filter_loop_eq:
  "filter_loop sp c ty bs acc = acc @ List.map_filter (filter_point sp c ty) bs"
  by (induction bs arbitrary: acc) (auto simp: List.map_filter_simps split: option.splits)

lemma pt_time_rewrite_type [simp]: "pt_time (rewrite_type ty vals b) = pt_time b"
  by (auto simp: rewrite_type_def split: option.splits list.splits)

lemma rewrite_type_only_type:
  "rewrite_type ty vals b = b\<lparr>pt_type := pt_type (rewrite_type ty vals b)\<rparr>"
  by (auto simp: rewrite_type_def split: option.splits list.splits)

lemma filter_point_Some:
  "filter_point sp c ty b = Some b' \<Longrightarrow> b' = rewrite_type ty (bsp_type_values (pt_type b)) b"
  by (auto simp: filter_point_def Let_def split: if_splits option.splits)

lemma subseq_map_filter:
  "(\<And>x y. x \<in> set xs \<Longrightarrow> f x = Some y \<Longrightarrow> y = g x) \<Longrightarrow> subseq (List.map_filter f xs) (map g xs)"
proof (induction xs)
  case Nil
  show ?case by (simp add: List.map_filter_simps)
next
  case (Cons x xs)
  have ih: "subseq (List.map_filter f xs) (map g xs)" using Cons by auto
  show ?case
  proof (cases "f x")
    case None
    with ih show ?thesis by (auto simp: List.map_filter_simps intro: list_emb_Cons)
  next
    case (Some y)
    with Cons.prems have "y = g x" by auto
    with Some ih show ?thesis by (simp add: List.map_filter_simps)
  qed
qed

lemma map_filter_append:
  "List.map_filter f (xs @ ys) = List.map_filter f xs @ List.map_filter f ys"
  by (simp add: List.map_filter_def)

lemma filter_buy_points_eq:
  "cutoff_time now days = Inr c \<Longrightarrow>
   filter_buy_points sp now bs ty days = Inr (List.map_filter (filter_point sp c ty) bs)"
  by (simp add: filter_buy_points_def filter_loop_eq)

lemma cutoff_time_Inr:
  "cutoff_time now days = Inr c \<Longrightarrow> c = now - days * us_per_day"
  by (auto simp: cutoff_time_def timedelta_days_def datetime_sub_def Let_def
           split: if_splits sum.splits)

lemma find_Some_holds: "find P xs = Some x \<Longrightarrow> P x \<and> x \<in> set xs"
  by (induction xs) (auto split: if_splits)

lemma bsp_type_values_nonempty: "bsp_type_values raw \<noteq> []"
  by (simp add: bsp_type_values_def Let_def)

lemmas filter_eval =
  filter_buy_points_def cutoff_time_def timedelta_days_def datetime_sub_def us_per_day_def
  datetime_end_def filter_point_def bsp_type_values_def findall_quoted_def type_matched_def
  rewrite_type_def example_strptime_def example_point_def Let_def

subsection \<open>Scheduler: the events one by one\<close>

lemma step_Submit:
  "step Submit s = (if pc s = DSubmit then Some (s\<lparr>submitted := length (units s), pc := DWait\<rparr>) else None)"
  by (simp add: step_def Let_def)

lemma step_SubmitFail:
  "step (SubmitFail k m) s = (if pc s = DSubmit \<and> k < length (units s)
          then Some (s\<lparr>submitted := k, pc := DErrAcquire m\<rparr>) else None)"
  by (simp add: step_def Let_def)

lemma step_Yield:
  "step (Yield i) s = (if pc s = DWait \<and> i < length (units s) \<and> is_done (units s ! i) \<and> i \<notin> set (yielded s)
          then Some (s\<lparr>yielded := i # yielded s, pc := DCheck i\<rparr>) else None)"
  by (simp add: step_def Let_def)

lemma step_LoopEnd:
  "step LoopEnd s = (if pc s = DWait \<and> length (yielded s) = length (units s)
          then Some (s\<lparr>pc := DFinal\<rparr>) else None)"
  by (simp add: step_def Let_def)

lemma step_Drive: "step Drive s = drive s"
  by (simp add: step_def Let_def)

lemma step_CancelCheck:
  "step CancelCheck s = Some (if status (task s) = ''running'' then s\<lparr>pending_cancel := pending_cancel s + 1\<rparr> else s)"
  by (simp add: step_def Let_def)

lemma step_CancelWrite:
  "step CancelWrite s = (if pending_cancel s > 0 \<and> \<not> lock (task s)
          then Some (s\<lparr>task := (task s)\<lparr>cancelled := True\<rparr>, pending_cancel := pending_cancel s - 1\<rparr>)
          else None)"
  by (simp add: step_def Let_def)

lemma step_Tick: "step Tick s = Some (s\<lparr>clock := clock s + 1\<rparr>)"
  by (simp add: step_def Let_def)

lemmas pc_defs = pend_def fpend_def holds_lock_def settled_def current_def in_handler_def

lemma inv_Submit: "inv s \<Longrightarrow> step Submit s = Some s' \<Longrightarrow> inv s'"
  by (auto simp: step_Submit inv_def pc_defs split: if_splits)

lemma inv_SubmitFail: "inv s \<Longrightarrow> step (SubmitFail k m) s = Some s' \<Longrightarrow> inv s'"
  by (auto simp: step_SubmitFail inv_def pc_defs split: if_splits)

lemma inv_Yield: "inv s \<Longrightarrow> step (Yield i) s = Some s' \<Longrightarrow> inv s'"
  by (auto simp: step_Yield inv_def pc_defs split: if_splits)

lemma inv_LoopEnd: "inv s \<Longrightarrow> step LoopEnd s = Some s' \<Longrightarrow> inv s'"
  by (auto simp: step_LoopEnd inv_def pc_defs split: if_splits)

lemma inv_CancelCheck: "inv s \<Longrightarrow> step CancelCheck s = Some s' \<Longrightarrow> inv s'"
  by (auto simp: step_CancelCheck inv_def split: if_splits)

lemma inv_CancelWrite: "inv s \<Longrightarrow> step CancelWrite s = Some s' \<Longrightarrow> inv s'"
  by (auto simp: step_CancelWrite inv_def split: if_splits)

lemma inv_Tick: "inv s \<Longrightarrow> step Tick s = Some s' \<Longrightarrow> inv s'"
  by (auto simp: step_Tick inv_def)

lemma step_Start:
  "step (Start i) s =
     (if i < submitted s \<and> i < length (units s) \<and> units s ! i = Queued
         \<and> Queued \<notin> set (take i (units s))
         \<and> length (filter in_flight (units s)) < MAX_WORKERS
      then Some (s\<lparr>units := (units s)[i := (if cancelled (task s) then Done 0 None
                                             else Checked (clock s))]\<rparr>)
      else None)"
  by (simp add: step_def Let_def)

lemma step_Mark:
  "step (Mark i) s =
     (if i < length (units s) \<and> i < length (stocks s) \<and> \<not> lock (task s)
      then (case units s ! i of
              Checked t0 \<Rightarrow>
                Some (s\<lparr>task := (task s)\<lparr>current_stock := Some (stocks s ! i)\<rparr>,
                        units := (units s)[i := Computing t0]\<rparr>)
            | _ \<Rightarrow> None)
      else None)"
  by (simp add: step_def Let_def)

lemma step_Finish:
  "step (Finish i r) s =
     (if i < length (units s)
      then (case units s ! i of
              Computing t0 \<Rightarrow> Some (s\<lparr>units := (units s)[i := Done (clock s - t0) r]\<rparr>)
            | _ \<Rightarrow> None)
      else None)"
  by (simp add: step_def Let_def)

lemma inv_units_update:
  assumes "inv s" "\<not> is_done (units s ! i)"
  shows "inv (s\<lparr>units := (units s)[i := u]\<rparr>)"
proof -
  have "(units s)[i := u] ! j = units s ! j" if "j \<in> set (yielded s)" for j
  proof -
    from that assms(1) have "is_done (units s ! j)" by (simp add: inv_def)
    with assms(2) have "j \<noteq> i" by auto
    then show ?thesis by simp
  qed
  with assms(1) show ?thesis by (simp add: inv_def)
qed

lemma inv_current_stock:
  "inv s \<Longrightarrow> inv (s\<lparr>task := (task s)\<lparr>current_stock := c\<rparr>\<rparr>)"
  by (simp add: inv_def)

lemma inv_Start: 
  assumes "inv s" "step (Start i) s = Some s'" shows "inv s'"
proof -
  from assms(2) have q: "units s ! i = Queued"
    and s': "s' = s\<lparr>units := (units s)[i := (if cancelled (task s) then Done 0 None else Checked (clock s))]\<rparr>"
    by (simp_all add: step_Start split: if_splits)
  from q have "\<not> is_done (units s ! i)" by (simp add: is_done_def)
  from inv_units_update[OF assms(1) this] s' show ?thesis by simp
qed

lemma inv_Mark: 
  assumes "inv s" "step (Mark i) s = Some s'" shows "inv s'"
proof -
  from assms(2) obtain t0 where q: "units s ! i = Checked t0"
    and s': "s' = s\<lparr>task := (task s)\<lparr>current_stock := Some (stocks s ! i)\<rparr>,
                        units := (units s)[i := Computing t0]\<rparr>"
    by (auto simp: step_Mark split: if_splits unit_state.splits)
  let ?s1 = "s\<lparr>task := (task s)\<lparr>current_stock := Some (stocks s ! i)\<rparr>\<rparr>"
  have 1: "inv ?s1" by (rule inv_current_stock[OF assms(1)])
  from q have "\<not> is_done (units ?s1 ! i)" by (simp add: is_done_def)
  from inv_units_update[OF 1 this, of "Computing t0"] s' show ?thesis by simp
qed

lemma inv_Finish: 
  assumes "inv s" "step (Finish i r) s = Some s'" shows "inv s'"
proof -
  from assms(2) obtain t0 where q: "units s ! i = Computing t0"
    and s': "s' = s\<lparr>units := (units s)[i := Done (clock s - t0) r]\<rparr>"
    by (auto simp: step_Finish split: if_splits unit_state.splits)
  from q have "\<not> is_done (units s ! i)" by (simp add: is_done_def)
  from inv_units_update[OF assms(1) this] s' show ?thesis by simp
qed

lemma inv_init: "inv (init_sys tid codes now)"
  by (simp add: inv_def init_sys_def ScanTask_init_def pc_defs)

lemma inv_drive:
  assumes "inv s" "drive s = Some s'"
  shows "inv s'"
proof (cases "pc s")
  case DSubmit
  with assms show ?thesis by (simp add: drive_def)
next
  case DWait
  with assms show ?thesis by (simp add: drive_def)
next
  case (DCheck i)
  with assms show ?thesis by (cases "cancelled (task s)") (auto simp: drive_def Let_def inv_def pc_defs)
next
  case (DResult i t0)
  with assms(1) have "is_done (units s ! i)" by (simp add: inv_def current_def)
  then obtain d r where "units s ! i = Done d r"
    by (cases "units s ! i") (simp_all add: is_done_def)
  with DResult assms show ?thesis by (auto simp: drive_def Let_def inv_def pc_defs)
next
  case (DAcquire r)
  with assms show ?thesis by (auto simp: drive_def Let_def inv_def pc_defs split: if_splits)
next
  case (DIncr r)
  with assms show ?thesis by (auto simp: drive_def Let_def inv_def pc_defs)
next
  case (DExtend r)
  with assms show ?thesis by (auto simp: drive_def Let_def inv_def pc_defs split: if_splits)
next
  case (DFound xs)
  with assms show ?thesis by (auto simp: drive_def Let_def inv_def pc_defs)
next
  case DRelease
  with assms show ?thesis by (auto simp: drive_def Let_def inv_def pc_defs)
next
  case DExcAcquire
  with assms show ?thesis by (simp add: inv_def pc_defs)
next
  case DExcIncr
  with assms show ?thesis by (simp add: inv_def pc_defs)
next
  case DFinal
  with assms show ?thesis by (auto simp: drive_def Let_def inv_def pc_defs split: if_splits)
next
  case DStatus
  with assms show ?thesis
    by (cases "cancelled (task s)") (auto simp: drive_def Let_def inv_def pc_defs terminal_def)
next
  case DClear
  with assms show ?thesis by (auto simp: drive_def Let_def inv_def pc_defs)
next
  case (DErrAcquire m)
  with assms show ?thesis by (auto simp: drive_def Let_def inv_def pc_defs split: if_splits)
next
  case (DErrStatus m)
  with assms show ?thesis by (auto simp: drive_def Let_def inv_def pc_defs terminal_def)
next
  case (DErrMsg m)
  with assms show ?thesis by (auto simp: drive_def Let_def inv_def pc_defs)
next
  case DExit
  with assms show ?thesis by (simp add: drive_def)
qed

lemma inv_step:
  assumes "inv s" "step e s = Some s'"
  shows "inv s'"
proof (cases e)
  case Submit
  with assms show ?thesis by (simp add: inv_Submit)
next
  case (SubmitFail k m)
  with assms show ?thesis by (simp add: inv_SubmitFail)
next
  case (Start i)
  with assms show ?thesis by (simp add: inv_Start)
next
  case (Mark i)
  with assms show ?thesis by (simp add: inv_Mark)
next
  case (Finish i r)
  with assms show ?thesis by (simp add: inv_Finish)
next
  case (Yield i)
  with assms show ?thesis by (simp add: inv_Yield)
next
  case LoopEnd
  with assms show ?thesis by (simp add: inv_LoopEnd)
next
  case Drive
  with assms show ?thesis by (simp add: step_Drive inv_drive)
next
  case CancelCheck
  with assms show ?thesis by (simp add: inv_CancelCheck)
next
  case CancelWrite
  with assms show ?thesis by (simp add: inv_CancelWrite)
next
  case Tick
  with assms show ?thesis by (simp add: inv_Tick)
qed

lemma inv_run: "inv s \<Longrightarrow> run es s = Some s' \<Longrightarrow> inv s'"
  by (induction es arbitrary: s) (auto split: option.splits dest: inv_step)

lemma run_append:
  "run (es @ es') s = (case run es s of None \<Rightarrow> None | Some s' \<Rightarrow> run es' s')"
  by (induction es arbitrary: s) (auto split: option.splits)


subsection \<open>Claims on the filter engine\<close>

text \<open>
  Claim C10. Whenever \<open>filter_buy_points\<close> returns, its output is an order-preserving
  subsequence of the input with the type field rewritten: it is a subsequence (same
  relative order, every input position used at most once) of the input points after
  \<open>rewrite_type\<close>, and every emitted point is an input point that differs at most in
  its type field.
\<close>

theorem filter_buy_points_subseq:
  assumes "filter_buy_points strptime now bs types days = Inr out"
  shows "subseq out (map (\<lambda>b. rewrite_type types (bsp_type_values (pt_type b)) b) bs)
         \<and> (\<forall>b' \<in> set out. \<exists>b \<in> set bs. b' = b\<lparr>pt_type := pt_type b'\<rparr>)"
proof -
  from assms obtain c where c: "cutoff_time now days = Inr c"
    by (auto simp: filter_buy_points_def split: sum.splits)
  with assms have out: "out = List.map_filter (filter_point strptime c types) bs"
    by (simp add: filter_buy_points_eq)
  have 1: "subseq out (map (\<lambda>b. rewrite_type types (bsp_type_values (pt_type b)) b) bs)"
    unfolding out by (rule subseq_map_filter) (rule filter_point_Some)
  have 2: "\<exists>b \<in> set bs. b' = b\<lparr>pt_type := pt_type b'\<rparr>" if "b' \<in> set out" for b'
  proof -
    from that obtain b where b: "b \<in> set bs" "filter_point strptime c types b = Some b'"
      by (auto simp: out List.map_filter_def)
    from filter_point_Some[OF b(2)] rewrite_type_only_type[of types "bsp_type_values (pt_type b)" b]
    have "b' = b\<lparr>pt_type := pt_type b'\<rparr>" by simp
    with b(1) show ?thesis by blast
  qed
  from 1 2 show ?thesis by blast
qed

text \<open>Witness of C10: a sell point, a retained point and a point before the cutoff.\<close>

theorem filter_buy_points_subseq_witness:
  "filter_buy_points example_strptime 63851155200000000
     [example_point\<lparr>is_buy := False\<rparr>, example_point, example_point\<lparr>pt_time := ''2024/05/09 23:59''\<rparr>]
     [''3a'', ''2''] 3 = Inr [example_point\<lparr>pt_type := ''3a''\<rparr>]
   \<and> subseq [example_point\<lparr>pt_type := ''3a''\<rparr>]
        (map (\<lambda>b. rewrite_type [''3a'', ''2''] (bsp_type_values (pt_type b)) b)
          [example_point\<lparr>is_buy := False\<rparr>, example_point,
           example_point\<lparr>pt_time := ''2024/05/09 23:59''\<rparr>])"
proof -
  have r: "filter_buy_points example_strptime 63851155200000000
     [example_point\<lparr>is_buy := False\<rparr>, example_point, example_point\<lparr>pt_time := ''2024/05/09 23:59''\<rparr>]
     [''3a'', ''2''] 3 = Inr [example_point\<lparr>pt_type := ''3a''\<rparr>]"
    by (simp add: filter_eval)
  from conjunct1[OF filter_buy_points_subseq[OF r]] r show ?thesis by (rule conjI[rotated])
qed

text \<open>
  Claim C4. A buy point anywhere in the input that carries several packed tag values,
  whose first requested type (in the order of the caller's list) among these values is
  \<open>t\<close>, and whose time parses and is not before the cutoff, is emitted with its type
  rewritten to \<open>t\<close>; a buy point none of whose values is requested is dropped. The
  witness evaluates the example of the claim: packed tags 2 and 3a with the requested
  list 3a, 2 give type 3a, and with the requested list 1 the point is dropped.
\<close>

theorem filter_buy_points_first_accepted:
  assumes "is_buy b"
      and "cutoff_time now days = Inr c"
      and "vals = bsp_type_values (pt_type b)"
  shows "\<exists>o1 o2. filter_buy_points strptime now pre types days = Inr o1
           \<and> filter_buy_points strptime now post types days = Inr o2
           \<and> (length vals > 1 \<and> find (\<lambda>t. t \<in> set vals) types = Some t
                \<and> strptime (pt_time b) = Some ts \<and> c \<le> ts
              \<longrightarrow> filter_buy_points strptime now (pre @ b # post) types days
                    = Inr (o1 @ b\<lparr>pt_type := t\<rparr> # o2))
           \<and> (\<not> type_matched types vals
              \<longrightarrow> filter_buy_points strptime now (pre @ b # post) types days = Inr (o1 @ o2))"
proof -
  let ?f = "filter_point strptime c types"
  have m: "type_matched types vals" if "find (\<lambda>t. t \<in> set vals) types = Some t"
    using find_Some_holds[OF that] by (auto simp: type_matched_def list_ex_iff)
  have e: "?f b = Some (b\<lparr>pt_type := t\<rparr>)"
    if "length vals > 1" "find (\<lambda>t. t \<in> set vals) types = Some t"
       "strptime (pt_time b) = Some ts" "c \<le> ts"
    using that m assms(1,3) by (simp add: filter_point_def Let_def rewrite_type_def)
  have d: "?f b = None" if "\<not> type_matched types vals"
    using that assms(1,3) by (simp add: filter_point_def Let_def)
  show ?thesis
    using e d
    by (auto simp: filter_buy_points_eq[OF assms(2)] map_filter_append List.map_filter_simps)
qed

text \<open>Witness of C4.\<close>

theorem filter_buy_points_first_accepted_witness:
  "is_buy example_point
   \<and> bsp_type_values (pt_type example_point) = [''2'', ''3a'']
   \<and> find (\<lambda>t. t \<in> set [''2'', ''3a'']) [''3a'', ''2''] = Some ''3a''
   \<and> filter_buy_points example_strptime 63851155200000000 [example_point] [''3a'', ''2''] 3
       = Inr [example_point\<lparr>pt_type := ''3a''\<rparr>]
   \<and> \<not> type_matched [''1''] [''2'', ''3a'']
   \<and> filter_buy_points example_strptime 63851155200000000 [example_point] [''1''] 3 = Inr []"
proof -
  have b: "is_buy example_point" by (simp add: example_point_def)
  have c: "cutoff_time 63851155200000000 3 = Inr 63850896000000000"
    by (simp add: filter_eval)
  have v: "[''2'', ''3a''] = bsp_type_values (pt_type example_point)"
    by (simp add: filter_eval)
  have f: "find (\<lambda>t. t \<in> set [''2'', ''3a'']) [''3a'', ''2''] = Some ''3a''" by simp
  have p: "example_strptime (pt_time example_point) = Some 63850896000000000"
    by (simp add: filter_eval)
  have n: "\<not> type_matched [''1''] [''2'', ''3a'']" by (simp add: type_matched_def)
  have e: "filter_buy_points example_strptime 63851155200000000 [] ty 3 = Inr []" for ty
    by (simp add: filter_eval)
  from filter_buy_points_first_accepted[OF b c v, where strptime = example_strptime
         and pre = "[]" and post = "[]" and types = "[''3a'', ''2'']" and t = "''3a''"
         and ts = "63850896000000000"] f p
  have 1: "filter_buy_points example_strptime 63851155200000000 [example_point] [''3a'', ''2''] 3
       = Inr [example_point\<lparr>pt_type := ''3a''\<rparr>]"
    by (auto simp: e)
  from filter_buy_points_first_accepted[OF b c v, where strptime = example_strptime
         and pre = "[]" and post = "[]" and types = "[''1'']"] n
  have 2: "filter_buy_points example_strptime 63851155200000000 [example_point] [''1''] 3 = Inr []"
    by (auto simp: e)
  from b v f 1 n 2 show ?thesis by simp
qed

text \<open>
  Claim C7. The cutoff is \<open>now\<close> minus \<open>time_window_days\<close> days. A buy point of a
  requested type whose time is exactly the cutoff is retained, and one whose time is
  strictly before the cutoff is dropped.
\<close>

theorem filter_buy_points_boundary:
  assumes "is_buy b"
      and "type_matched types (bsp_type_values (pt_type b))"
      and "strptime (pt_time b) = Some ts"
      and "cutoff_time now days = Inr c"
  shows "c = now - days * us_per_day \<and>
         (\<exists>o1 o2. filter_buy_points strptime now pre types days = Inr o1
           \<and> filter_buy_points strptime now post types days = Inr o2
           \<and> (ts = now - days * us_per_day
              \<longrightarrow> filter_buy_points strptime now (pre @ b # post) types days
                    = Inr (o1 @ rewrite_type types (bsp_type_values (pt_type b)) b # o2))
           \<and> (ts < now - days * us_per_day
              \<longrightarrow> filter_buy_points strptime now (pre @ b # post) types days = Inr (o1 @ o2)))"
proof -
  let ?f = "filter_point strptime c types"
  have c: "c = now - days * us_per_day" by (rule cutoff_time_Inr[OF assms(4)])
  have e: "?f b = Some (rewrite_type types (bsp_type_values (pt_type b)) b)" if "ts = c"
    using that assms(1-3) by (simp add: filter_point_def Let_def)
  have d: "?f b = None" if "ts < c"
    using that assms(1-3) by (simp add: filter_point_def Let_def)
  show ?thesis
    using e d c
    by (auto simp: filter_buy_points_eq[OF assms(4)] map_filter_append List.map_filter_simps)
qed

text \<open>
  Witness of C7: with \<open>now\<close> = 2024-05-13 00:00 and a window of 3 days, a point at
  2024-05-10 00:00 is retained and a point one minute earlier is dropped.
\<close>

theorem filter_buy_points_boundary_witness:
  "cutoff_time 63851155200000000 3 = Inr 63850896000000000
   \<and> example_strptime (pt_time example_point) = Some 63850896000000000
   \<and> filter_buy_points example_strptime 63851155200000000 [example_point] [''3a'', ''2''] 3
       = Inr [example_point\<lparr>pt_type := ''3a''\<rparr>]
   \<and> example_strptime ''2024/05/09 23:59'' = Some 63850895940000000
   \<and> filter_buy_points example_strptime 63851155200000000
        [example_point\<lparr>pt_time := ''2024/05/09 23:59''\<rparr>] [''3a'', ''2''] 3 = Inr []"
proof -
  let ?late = "example_point\<lparr>pt_time := ''2024/05/09 23:59''\<rparr>"
  have b: "is_buy example_point" "is_buy ?late" by (simp_all add: example_point_def)
  have c: "cutoff_time 63851155200000000 3 = Inr 63850896000000000"
    by (simp add: filter_eval)
  have m: "type_matched [''3a'', ''2''] (bsp_type_values (pt_type example_point))"
          "type_matched [''3a'', ''2''] (bsp_type_values (pt_type ?late))"
    by (simp_all add: filter_eval)
  have p: "example_strptime (pt_time example_point) = Some 63850896000000000"
          "example_strptime (pt_time ?late) = Some 63850895940000000"
    by (simp_all add: filter_eval)
  have e: "filter_buy_points example_strptime 63851155200000000 [] ty 3 = Inr []" for ty
    by (simp add: filter_eval)
  have w: "rewrite_type [''3a'', ''2''] (bsp_type_values (pt_type example_point)) example_point
           = example_point\<lparr>pt_type := ''3a''\<rparr>"
    by (simp add: filter_eval)
  from filter_buy_points_boundary[where strptime = example_strptime and b = example_point
         and pre = "[]" and post = "[]", OF b(1) m(1) p(1) c]
  have 1: "filter_buy_points example_strptime 63851155200000000 [example_point] [''3a'', ''2''] 3
       = Inr [example_point\<lparr>pt_type := ''3a''\<rparr>]"
    by (auto simp: e w us_per_day_def)
  from filter_buy_points_boundary[where strptime = example_strptime and b = ?late
         and pre = "[]" and post = "[]", OF b(2) m(2) p(2) c]
  have 2: "filter_buy_points example_strptime 63851155200000000 [?late] [''3a'', ''2''] 3 = Inr []"
    by (auto simp: e us_per_day_def)
  from c p 1 2 show ?thesis by (simp add: example_strptime_def)
qed

subsection \<open>Claims on the universe resolver and on task creation\<close>

text \<open>
  Claim C2, as amended. With the pool \<open>custom\<close> a non-empty list of codes is returned
  as it is; an empty or absent list is not: the test \<open>stock_pool == "custom" and
  stock_codes\<close> fails for it and the call returns the whole catalog.
\<close>

theorem get_stock_list_custom:
  "(codes \<noteq> [] \<longrightarrow> get_stock_list cat ''custom'' bds (Some codes) = codes)
   \<and> get_stock_list cat ''custom'' bds (Some []) = get_all_stocks cat
   \<and> get_stock_list cat ''custom'' bds None = get_all_stocks cat"
  by (simp add: get_stock_list_def truthy_def)

text \<open>Witness of C2 as amended.\<close>

theorem get_stock_list_custom_witness:
  "[''sh.600000'', ''sz.000001''] \<noteq> []
   \<and> get_stock_list (Some [''sh.600519'']) ''custom'' None (Some [''sh.600000'', ''sz.000001''])
       = [''sh.600000'', ''sz.000001'']"
  using get_stock_list_custom[of "[''sh.600000'', ''sz.000001'']" "Some [''sh.600519'']" None]
  by simp

text \<open>
  C2 as stated fails: with the pool \<open>custom\<close> and an empty list of codes the result is
  the catalog, not the empty list.
\<close>

theorem get_stock_list_custom_empty_counterexample:
  "get_stock_list (Some [''sh.600519'', ''sz.000001'']) ''custom'' None (Some [])
     = [''sh.600519'', ''sz.000001'']
   \<and> get_stock_list (Some [''sh.600519'', ''sz.000001'']) ''custom'' None (Some []) \<noteq> []"
  by (simp add: get_stock_list_def truthy_def get_all_stocks_def)

text \<open>
  Claim C6. When the resolved list of stocks is empty, \<open>start_scan\<close> raises ValueError
  and leaves the state as it was: no row in \<open>scan_tasks\<close>, no entry in \<open>tasks\<close>, no
  thread. In particular when the catalog cannot be read and the request does not carry
  its own non-empty list of codes.
\<close>

theorem start_scan_empty_universe:
  "(get_stock_list (catalog svc) (stock_pool req) (boards req) (stock_codes req) = []
      \<longrightarrow> start_scan svc req tid now = (Inl ValueError, svc))
   \<and> (catalog svc = None \<and> \<not> (stock_pool req = ''custom'' \<and> truthy (stock_codes req))
      \<longrightarrow> get_stock_list (catalog svc) (stock_pool req) (boards req) (stock_codes req) = []
          \<and> start_scan svc req tid now = (Inl ValueError, svc))"
  by (auto simp: start_scan_def get_stock_list_def get_stocks_by_boards_def get_all_stocks_def Let_def)

text \<open>Witness of C6: the catalog cannot be read and the request selects by board.\<close>

theorem start_scan_empty_universe_witness:
  "catalog \<lparr>catalog = None, db_writable = True, db_scan_tasks = [], tasks = Map.empty, threads = []\<rparr> = None
   \<and> get_stock_list None ''boards'' (Some [''etf'']) None = []
   \<and> start_scan \<lparr>catalog = None, db_writable = True, db_scan_tasks = [], tasks = Map.empty, threads = []\<rparr>
        \<lparr>stock_pool = ''boards'', boards = Some [''etf''], stock_codes = None, req_kline_type = ''day'',
         bsp_types = [''1''], time_window_days = 3, limit = 500\<rparr> ''t1'' 0
      = (Inl ValueError,
         \<lparr>catalog = None, db_writable = True, db_scan_tasks = [], tasks = Map.empty, threads = []\<rparr>)"
  using start_scan_empty_universe[of
     "\<lparr>catalog = None, db_writable = True, db_scan_tasks = [], tasks = Map.empty, threads = []\<rparr>"
     "\<lparr>stock_pool = ''boards'', boards = Some [''etf''], stock_codes = None, req_kline_type = ''day'',
         bsp_types = [''1''], time_window_days = 3, limit = 500\<rparr>" "''t1''" 0]
  by (simp add: truthy_def)

subsection \<open>Claims on the task record\<close>

text \<open>
  Claim C9, as amended. The elapsed time a task reports is the time of the read minus
  the start time, whatever the status of the task: two reads differ by the time between
  them, also after the task has completed.
\<close>

theorem elapsed_time_follows_clock:
  "elapsed_time now t = now - start_time t
   \<and> resp_elapsed_time (to_result now t) = now - start_time t
   \<and> resp_elapsed_time (to_result now' t) - resp_elapsed_time (to_result now t) = now' - now"
  by (simp add: to_result_def elapsed_time_def)

text \<open>
  C9 as stated fails: a completed task read at times 10 and 20 reports 10 and 20.
\<close>

theorem elapsed_time_frozen_counterexample:
  "status ((ScanTask_init ''t1'' 1 0)\<lparr>status := ''completed'', processed_count := 1\<rparr>) = ''completed''
   \<and> resp_elapsed_time (to_result 10 ((ScanTask_init ''t1'' 1 0)\<lparr>status := ''completed'', processed_count := 1\<rparr>)) = 10
   \<and> resp_elapsed_time (to_result 20 ((ScanTask_init ''t1'' 1 0)\<lparr>status := ''completed'', processed_count := 1\<rparr>)) = 20"
  by (simp add: to_result_def elapsed_time_def ScanTask_init_def)

subsection \<open>Scheduler: schedules, status and counters\<close>


lemmas wd_defs = winding_down_def before_status_def after_status_def

lemmas sched_eval =
  step_Submit step_SubmitFail step_Start step_Mark step_Finish step_Yield step_LoopEnd step_Drive
  step_CancelCheck step_CancelWrite step_Tick drive_def Let_def init_sys_def ScanTask_init_def
  is_done_def in_flight_def MAX_WORKERS_def SINGLE_STOCK_TIMEOUT_def result_items_def

lemma run_ticks: "run (replicate n Tick) s = Some (s\<lparr>clock := clock s + n\<rparr>)"
  by (induction n arbitrary: s) (simp_all add: step_Tick)









lemma winding_drive:
  assumes "winding_down p f rs s" "drive s = Some s'"
  shows "winding_down p f rs s'"
  using assms
  by (cases "pc s") (auto simp: drive_def Let_def wd_defs split: if_splits)

lemma winding_frame:
  assumes "winding_down p f rs s"
      and "pc s' = pc s" "cancelled (task s')" "status (task s') = status (task s)"
      and "processed_count (task s') = processed_count (task s)"
      and "found_count (task s') = found_count (task s)"
      and "results (task s') = results (task s)"
  shows "winding_down p f rs s'"
  using assms by (simp add: wd_defs)

lemma winding_step:
  assumes "winding_down p f rs s" "step e s = Some s'"
  shows "winding_down p f rs s'"
proof (cases e)
  case Submit
  with assms show ?thesis by (auto simp: step_Submit wd_defs split: if_splits)
next
  case (SubmitFail k m)
  with assms show ?thesis by (auto simp: step_SubmitFail wd_defs split: if_splits)
next
  case (Start i)
  with assms(2) have "s' = s\<lparr>units := units s'\<rparr>"
    by (auto simp: step_Start split: if_splits)
  then have "pc s' = pc s" "task s' = task s" by (metis sys.select_convs sys.surjective sys.update_convs)+
  with assms(1) show ?thesis by (simp add: wd_defs)
next
  case (Mark i)
  with assms(2) have "pc s' = pc s \<and> task s' = (task s)\<lparr>current_stock := Some (stocks s ! i)\<rparr>"
    by (auto simp: step_Mark split: if_splits unit_state.splits)
  with assms(1) show ?thesis by (intro winding_frame[OF assms(1)]) (simp_all add: wd_defs)
next
  case (Finish i r)
  with assms(2) have "pc s' = pc s \<and> task s' = task s"
    by (auto simp: step_Finish split: if_splits unit_state.splits)
  with assms(1) show ?thesis by (simp add: wd_defs)
next
  case (Yield i)
  with assms show ?thesis by (auto simp: step_Yield wd_defs split: if_splits)
next
  case LoopEnd
  with assms show ?thesis by (auto simp: step_LoopEnd wd_defs split: if_splits)
next
  case Drive
  with assms show ?thesis by (simp add: step_Drive winding_drive)
next
  case CancelCheck
  with assms(2) have "pc s' = pc s \<and> task s' = task s"
    by (auto simp: step_CancelCheck split: if_splits)
  with assms(1) show ?thesis by (simp add: wd_defs)
next
  case CancelWrite
  with assms(2) have "pc s' = pc s \<and> task s' = (task s)\<lparr>cancelled := True\<rparr>"
    by (auto simp: step_CancelWrite split: if_splits)
  with assms(1) show ?thesis by (intro winding_frame[OF assms(1)]) simp_all
next
  case Tick
  with assms(2) have "pc s' = pc s \<and> task s' = task s"
    by (auto simp: step_Tick)
  with assms(1) show ?thesis by (simp add: wd_defs)
qed

lemma winding_run:
  "winding_down p f rs s \<Longrightarrow> run es s = Some s' \<Longrightarrow> winding_down p f rs s'"
  by (induction es arbitrary: s) (auto split: option.splits dest: winding_step)

lemma winding_start:
  "cancelled (task s) \<Longrightarrow> at_loop_head (pc s) \<Longrightarrow>
   winding_down (processed_count (task s)) (found_count (task s)) (results (task s)) s"
  by (cases "pc s") (simp_all add: wd_defs at_loop_head_def)

subsection \<open>Claims on the scheduler\<close>




text \<open>
  Claim C3, as amended. Once the cancel flag is set and the scan thread is at the head
  of its loop, no completion changes \<open>processed_count\<close>, \<open>found_count\<close> or
  \<open>results\<close> any more, whether the unit was skipped or had started before the flag
  was set; a unit picked up from then on returns \<open>None\<close> at once; the status stays
  \<open>running\<close> until the thread sets it to \<open>cancelled\<close>, which it does four statements
  after the next completion is handed to it.
\<close>

theorem cancel_discards_completions:
  assumes "run es0 (init_sys tid codes now) = Some s0"
      and "cancelled (task s0)"
      and "at_loop_head (pc s0)"
      and "run es s0 = Some s"
  shows "processed_count (task s) = processed_count (task s0)
         \<and> found_count (task s) = found_count (task s0)
         \<and> results (task s) = results (task s0)
         \<and> (status (task s) = ''running'' \<or> status (task s) = ''cancelled'')
         \<and> (pc s = DExit \<longrightarrow> status (task s) = ''cancelled'')
         \<and> (\<forall>i s'. step (Start i) s = Some s' \<longrightarrow> units s' ! i = Done 0 None)
         \<and> (\<forall>i. pc s = DCheck i \<longrightarrow>
               map_option (status \<circ> task) (run [Drive, Drive, Drive, Drive] s) = Some ''cancelled'')"
proof -
  have i: "inv s" by (rule inv_run[OF inv_run[OF inv_init assms(1)] assms(4)])
  have w: "winding_down (processed_count (task s0)) (found_count (task s0)) (results (task s0)) s"
    by (rule winding_run[OF winding_start[OF assms(2,3)] assms(4)])
  have c: "cancelled (task s)" using w by (simp add: winding_down_def)
  have 1: "status (task s) = ''running'' \<or> status (task s) = ''cancelled''"
    using w i by (cases "pc s") (simp_all add: wd_defs inv_def settled_def)
  have 2: "status (task s) = ''cancelled''" if "pc s = DExit"
    using w that by (simp add: wd_defs)
  have 3: "units s' ! i = Done 0 None" if "step (Start i) s = Some s'" for i s'
    using that c by (auto simp: step_Start split: if_splits)
  have 4: "map_option (status \<circ> task) (run [Drive, Drive, Drive, Drive] s) = Some ''cancelled''"
    if "pc s = DCheck i" for i
  proof -
    from i that have "\<not> lock (task s)" by (simp add: inv_def holds_lock_def)
    with that c show ?thesis by (simp add: step_Drive drive_def Let_def)
  qed
  from w 1 2 3 4 show ?thesis by (simp add: winding_down_def)
qed

text \<open>
  Witness of C3 as amended: two stocks, the first started before the cancellation and
  finished after it, the second picked up after it.
\<close>

theorem cancel_discards_completions_witness:
  "map_option (cancelled \<circ> task)
     (run [Submit, Start 0, Mark 0, CancelCheck, CancelWrite]
        (init_sys ''t1'' [''sh.600000'', ''sz.000001''] 0)) = Some True
   \<and> map_option pc
     (run [Submit, Start 0, Mark 0, CancelCheck, CancelWrite]
        (init_sys ''t1'' [''sh.600000'', ''sz.000001''] 0)) = Some DWait
   \<and> map_option units
     (run ([Submit, Start 0, Mark 0, CancelCheck, CancelWrite]
           @ [Start 1, Finish 0 (Some [example_item]), Yield 0, Drive, Drive, Drive, Drive])
        (init_sys ''t1'' [''sh.600000'', ''sz.000001''] 0))
       = Some [Done 0 (Some [example_item]), Done 0 None]
   \<and> map_option (processed_count \<circ> task)
     (run ([Submit, Start 0, Mark 0, CancelCheck, CancelWrite]
           @ [Start 1, Finish 0 (Some [example_item]), Yield 0, Drive, Drive, Drive, Drive])
        (init_sys ''t1'' [''sh.600000'', ''sz.000001''] 0)) = Some 0
   \<and> map_option (results \<circ> task)
     (run ([Submit, Start 0, Mark 0, CancelCheck, CancelWrite]
           @ [Start 1, Finish 0 (Some [example_item]), Yield 0, Drive, Drive, Drive, Drive])
        (init_sys ''t1'' [''sh.600000'', ''sz.000001''] 0)) = Some []
   \<and> map_option (status \<circ> task)
     (run ([Submit, Start 0, Mark 0, CancelCheck, CancelWrite]
           @ [Start 1, Finish 0 (Some [example_item]), Yield 0, Drive, Drive, Drive, Drive])
        (init_sys ''t1'' [''sh.600000'', ''sz.000001''] 0)) = Some ''cancelled''"
proof -
  have r0: "run [Submit, Start 0, Mark 0, CancelCheck, CancelWrite]
              (init_sys ''t1'' [''sh.600000'', ''sz.000001''] 0) = Some (\<lparr>task = \<lparr>task_id = ''t1'', status = ''running'', total_count = 2,
                       processed_count = 0, found_count = 0, current_stock = Some ''sh.600000'',
                       results = [], error_message = None, start_time = 0,
                       cancelled = True, lock = False\<rparr>,
               stocks = [''sh.600000'', ''sz.000001''], units = [Computing 0, Queued],
               submitted = 2, yielded = [], pc = DWait, pending_cancel = 0, clock = 0\<rparr>)"
    by (simp add: sched_eval)
  have r: "run [Start 1, Finish 0 (Some [example_item]), Yield 0, Drive, Drive, Drive, Drive] (\<lparr>task = \<lparr>task_id = ''t1'', status = ''running'', total_count = 2,
                       processed_count = 0, found_count = 0, current_stock = Some ''sh.600000'',
                       results = [], error_message = None, start_time = 0,
                       cancelled = True, lock = False\<rparr>,
               stocks = [''sh.600000'', ''sz.000001''], units = [Computing 0, Queued],
               submitted = 2, yielded = [], pc = DWait, pending_cancel = 0, clock = 0\<rparr>)
             = Some (\<lparr>task = \<lparr>task_id = ''t1'', status = ''cancelled'', total_count = 2,
                       processed_count = 0, found_count = 0, current_stock = None,
                       results = [], error_message = None, start_time = 0,
                       cancelled = True, lock = False\<rparr>,
               stocks = [''sh.600000'', ''sz.000001''],
               units = [Done 0 (Some [example_item]), Done 0 None],
               submitted = 2, yielded = [0], pc = DExit, pending_cancel = 0, clock = 0\<rparr>)"
    by (simp add: sched_eval)
  have c: "cancelled (task (\<lparr>task = \<lparr>task_id = ''t1'', status = ''running'', total_count = 2,
                       processed_count = 0, found_count = 0, current_stock = Some ''sh.600000'',
                       results = [], error_message = None, start_time = 0,
                       cancelled = True, lock = False\<rparr>,
               stocks = [''sh.600000'', ''sz.000001''], units = [Computing 0, Queued],
               submitted = 2, yielded = [], pc = DWait, pending_cancel = 0, clock = 0\<rparr>))" by simp
  have h: "at_loop_head (pc (\<lparr>task = \<lparr>task_id = ''t1'', status = ''running'', total_count = 2,
                       processed_count = 0, found_count = 0, current_stock = Some ''sh.600000'',
                       results = [], error_message = None, start_time = 0,
                       cancelled = True, lock = False\<rparr>,
               stocks = [''sh.600000'', ''sz.000001''], units = [Computing 0, Queued],
               submitted = 2, yielded = [], pc = DWait, pending_cancel = 0, clock = 0\<rparr>))" by (simp add: at_loop_head_def)
  from cancel_discards_completions[OF r0 c h r] r0 r show ?thesis
    by (simp only: run_append) simp
qed

text \<open>
  C3 as stated fails: a unit that had started before the flag was set and then
  finished with one result contributes nothing; the task ends cancelled with no
  results.
\<close>

theorem cancel_started_unit_counterexample:
  "map_option units
     (run [Submit, Start 0, Mark 0, CancelCheck, CancelWrite]
        (init_sys ''t1'' [''sh.600000''] 0)) = Some [Computing 0]
   \<and> map_option (cancelled \<circ> task)
     (run [Submit, Start 0, Mark 0, CancelCheck, CancelWrite]
        (init_sys ''t1'' [''sh.600000''] 0)) = Some True
   \<and> map_option (status \<circ> task)
     (run [Submit, Start 0, Mark 0, CancelCheck, CancelWrite]
        (init_sys ''t1'' [''sh.600000''] 0)) = Some ''running''
   \<and> map_option units
     (run [Submit, Start 0, Mark 0, CancelCheck, CancelWrite, Finish 0 (Some [example_item]),
           Yield 0, Drive, Drive, Drive, Drive]
        (init_sys ''t1'' [''sh.600000''] 0)) = Some [Done 0 (Some [example_item])]
   \<and> map_option (results \<circ> task)
     (run [Submit, Start 0, Mark 0, CancelCheck, CancelWrite, Finish 0 (Some [example_item]),
           Yield 0, Drive, Drive, Drive, Drive]
        (init_sys ''t1'' [''sh.600000''] 0)) = Some []
   \<and> map_option (found_count \<circ> task)
     (run [Submit, Start 0, Mark 0, CancelCheck, CancelWrite, Finish 0 (Some [example_item]),
           Yield 0, Drive, Drive, Drive, Drive]
        (init_sys ''t1'' [''sh.600000''] 0)) = Some 0
   \<and> map_option (status \<circ> task)
     (run [Submit, Start 0, Mark 0, CancelCheck, CancelWrite, Finish 0 (Some [example_item]),
           Yield 0, Drive, Drive, Drive, Drive]
        (init_sys ''t1'' [''sh.600000''] 0)) = Some ''cancelled''"
  by (simp add: sched_eval)



text \<open>
  Claim C8 fails on the code. A unit that runs for 31 seconds, longer than
  \<open>SINGLE_STOCK_TIMEOUT\<close>: while it runs the scan thread cannot move (no statement to
  execute, no future to take, the loop not finished); when it finishes, its result is
  added to \<open>results\<close> and counted in \<open>found_count\<close> like that of any other unit.
\<close>

theorem slow_unit_contributes:
  "SINGLE_STOCK_TIMEOUT < 31
   \<and> map_option units
       (run ([Submit, Start 0, Mark 0] @ replicate 31 Tick) (init_sys ''t1'' [''sh.600000''] 0))
       = Some [Computing 0]
   \<and> map_option clock
       (run ([Submit, Start 0, Mark 0] @ replicate 31 Tick) (init_sys ''t1'' [''sh.600000''] 0))
       = Some 31
   \<and> run ([Submit, Start 0, Mark 0] @ replicate 31 Tick @ [Drive])
        (init_sys ''t1'' [''sh.600000''] 0) = None
   \<and> run ([Submit, Start 0, Mark 0] @ replicate 31 Tick @ [LoopEnd])
        (init_sys ''t1'' [''sh.600000''] 0) = None
   \<and> run ([Submit, Start 0, Mark 0] @ replicate 31 Tick @ [Yield 0])
        (init_sys ''t1'' [''sh.600000''] 0) = None
   \<and> map_option units
       (run ([Submit, Start 0, Mark 0] @ replicate 31 Tick
             @ [Finish 0 (Some [example_item]), Yield 0, Drive, Drive, Drive, Drive, Drive, Drive,
                Drive, LoopEnd, Drive, Drive, Drive])
          (init_sys ''t1'' [''sh.600000''] 0)) = Some [Done 31 (Some [example_item])]
   \<and> map_option (processed_count \<circ> task)
       (run ([Submit, Start 0, Mark 0] @ replicate 31 Tick
             @ [Finish 0 (Some [example_item]), Yield 0, Drive, Drive, Drive, Drive, Drive, Drive,
                Drive, LoopEnd, Drive, Drive, Drive])
          (init_sys ''t1'' [''sh.600000''] 0)) = Some 1
   \<and> map_option (found_count \<circ> task)
       (run ([Submit, Start 0, Mark 0] @ replicate 31 Tick
             @ [Finish 0 (Some [example_item]), Yield 0, Drive, Drive, Drive, Drive, Drive, Drive,
                Drive, LoopEnd, Drive, Drive, Drive])
          (init_sys ''t1'' [''sh.600000''] 0)) = Some 1
   \<and> map_option (results \<circ> task)
       (run ([Submit, Start 0, Mark 0] @ replicate 31 Tick
             @ [Finish 0 (Some [example_item]), Yield 0, Drive, Drive, Drive, Drive, Drive, Drive,
                Drive, LoopEnd, Drive, Drive, Drive])
          (init_sys ''t1'' [''sh.600000''] 0)) = Some [example_item]
   \<and> map_option (status \<circ> task)
       (run ([Submit, Start 0, Mark 0] @ replicate 31 Tick
             @ [Finish 0 (Some [example_item]), Yield 0, Drive, Drive, Drive, Drive, Drive, Drive,
                Drive, LoopEnd, Drive, Drive, Drive])
          (init_sys ''t1'' [''sh.600000''] 0)) = Some ''completed''"
proof -
  have p: "run ([Submit, Start 0, Mark 0] @ replicate 31 Tick) (init_sys ''t1'' [''sh.600000''] 0)
             = Some (\<lparr>task = \<lparr>task_id = ''t1'', status = ''running'', total_count = 1,
                       processed_count = 0, found_count = 0, current_stock = Some ''sh.600000'',
                       results = [], error_message = None, start_time = 0,
                       cancelled = False, lock = False\<rparr>,
               stocks = [''sh.600000''], units = [Computing 0],
               submitted = 1, yielded = [], pc = DWait, pending_cancel = 0, clock = 31\<rparr>)"
    by (simp only: run_append) (simp add: run_ticks sched_eval)
  have q: "run ([Submit, Start 0, Mark 0] @ replicate 31 Tick @ es) (init_sys ''t1'' [''sh.600000''] 0)
             = run es (\<lparr>task = \<lparr>task_id = ''t1'', status = ''running'', total_count = 1,
                       processed_count = 0, found_count = 0, current_stock = Some ''sh.600000'',
                       results = [], error_message = None, start_time = 0,
                       cancelled = False, lock = False\<rparr>,
               stocks = [''sh.600000''], units = [Computing 0],
               submitted = 1, yielded = [], pc = DWait, pending_cancel = 0, clock = 31\<rparr>)" for es
    using p run_append[of "[Submit, Start 0, Mark 0] @ replicate 31 Tick" es] by simp
  show ?thesis
    unfolding q p by (simp add: sched_eval)
qed

text \<open>
  The reason: \<open>as_completed\<close> hands over done futures only, so \<open>future.result\<close>
  returns at once and the handler of TimeoutError is never entered; and while units run
  and none is done, the scan thread waits, however long.
\<close>

lemma timeout_handler_unreachable:
  assumes "run es (init_sys tid codes now) = Some s"
  shows "pc s \<noteq> DExcAcquire \<and> pc s \<noteq> DExcIncr
         \<and> (\<forall>i t0. pc s = DResult i t0 \<longrightarrow> (\<exists>d r. units s ! i = Done d r \<and> drive s = Some (s\<lparr>pc := DAcquire r\<rparr>)))"
proof -
  have i: "inv s" by (rule inv_run[OF inv_init assms])
  then have 1: "pc s \<noteq> DExcAcquire \<and> pc s \<noteq> DExcIncr" by (auto simp: inv_def in_handler_def)
  have 2: "\<exists>d r. units s ! i = Done d r \<and> drive s = Some (s\<lparr>pc := DAcquire r\<rparr>)" if "pc s = DResult i t0" for i t0
  proof -
    from i that have "is_done (units s ! i)" by (simp add: inv_def current_def)
    then obtain d r where "units s ! i = Done d r"
      by (cases "units s ! i") (simp_all add: is_done_def)
    with that show ?thesis by (simp add: drive_def)
  qed
  from 1 2 show ?thesis by blast
qed

lemma scan_thread_waits_for_running_units:
  assumes "pc s = DWait"
      and "\<forall>i < length (units s). is_done (units s ! i) \<longrightarrow> i \<in> set (yielded s)"
      and "length (yielded s) < length (units s)"
  shows "run (replicate n Tick) s = Some (s\<lparr>clock := clock s + n\<rparr>)
         \<and> step Drive (s\<lparr>clock := clock s + n\<rparr>) = None
         \<and> step LoopEnd (s\<lparr>clock := clock s + n\<rparr>) = None
         \<and> step (Yield i) (s\<lparr>clock := clock s + n\<rparr>) = None"
  using assms by (auto simp: run_ticks step_Drive step_LoopEnd step_Yield drive_def)

end
